theory Spec2Isabelle
  imports Main "HOL-Library.Sublist"
begin

section \<open>Python string operations used by VeoVidGen.py\<close>

text \<open>
  Python strings are modelled as \<^typ>\<open>string\<close> (lists of 8-bit characters), so the
  model speaks about ASCII text: one \<^typ>\<open>char\<close> is one Python character, and
  \<open>str.lower\<close> only changes the letters \<open>A\<close> to \<open>Z\<close>.
\<close>

definition startswith :: "string \<Rightarrow> string \<Rightarrow> bool" where
  "startswith s p = prefix p s"

definition endswith :: "string \<Rightarrow> string \<Rightarrow> bool" where
  "endswith s x = (length x \<le> length s \<and> drop (length s - length x) s = x)"

text \<open>\<open>s.endswith(t)\<close> for a tuple \<open>t\<close> of suffixes.\<close>

definition endswith_any :: "string \<Rightarrow> string list \<Rightarrow> bool" where
  "endswith_any s xs = list_ex (endswith s) xs"

definition lower_char :: "char \<Rightarrow> char" where
  "lower_char c =
     (case map_of (zip ''ABCDEFGHIJKLMNOPQRSTUVWXYZ'' ''abcdefghijklmnopqrstuvwxyz'') c of
        Some d \<Rightarrow> d
      | None \<Rightarrow> c)"

definition lower :: "string \<Rightarrow> string" where
  "lower s = map lower_char s"

text \<open>\<open>s.replace(a, b)\<close> for single characters \<open>a\<close> and \<open>b\<close>.\<close>

definition replace_char :: "char \<Rightarrow> char \<Rightarrow> string \<Rightarrow> string" where
  "replace_char a b s = map (\<lambda>c. if c = a then b else c) s"

text \<open>
  \<open>s.split(sep)\<close> for a one-character separator: the result always has at least one
  element, so \<open>hd\<close> and \<open>tl\<close> in the second equation are applied to a non-empty list.
\<close>

fun split_str :: "char \<Rightarrow> string \<Rightarrow> string list" where
  "split_str sep [] = [[]]"
| "split_str sep (c # cs) =
     (if c = sep then [] # split_str sep cs
      else (let r = split_str sep cs in (c # hd r) # tl r))"

text \<open>\<open>s.split(sep, 1)\<close>: at most one split, at the first separator.\<close>

fun split1 :: "char \<Rightarrow> string \<Rightarrow> string list" where
  "split1 sep [] = [[]]"
| "split1 sep (c # cs) =
     (if c = sep then [[], cs]
      else (let r = split1 sep cs in (c # hd r) # tl r))"

section \<open>Output filename (\<open>main\<close>, lines 272 to 286)\<close>

definition known_video_extensions :: "string list" where
  "known_video_extensions = [''.mp4'', ''.mov'', ''.avi'', ''.webm'', ''.mkv'']"

text \<open>
  The branch taken when \<open>args.output_filename\<close> is truthy: the name is kept when its
  lower-cased form ends with a known extension, and otherwise the last
  \<open>/\<close>-separated segment of the MIME type is appended, or \<open>mp4\<close> when that segment
  is empty or \<open>*\<close>.
\<close>

definition explicit_filename :: "string \<Rightarrow> string \<Rightarrow> string" where
  "explicit_filename output_filename video_mime_type =
     (if \<not> endswith_any (lower output_filename) known_video_extensions then
        (let inferred_ext = last (split_str CHR ''/'' video_mime_type) in
         if inferred_ext \<noteq> [] \<and> inferred_ext \<noteq> ''*''
         then output_filename @ ''.'' @ inferred_ext
         else output_filename @ ''.mp4'')
      else output_filename)"

text \<open>The extension that this branch appends to a name without a known one.\<close>

definition appended_ext :: "string \<Rightarrow> string" where
  "appended_ext video_mime_type =
     (let inferred_ext = last (split_str CHR ''/'' video_mime_type) in
      if inferred_ext \<noteq> [] \<and> inferred_ext \<noteq> ''*'' then inferred_ext else ''mp4'')"

text \<open>
  The branch taken otherwise; \<open>timestamp\<close> is the string that
  \<open>time.strftime("%Y%m%d-%H%M%S")\<close> returned.
\<close>

definition synthesized_filename :: "string \<Rightarrow> string \<Rightarrow> string \<Rightarrow> string" where
  "synthesized_filename prompt timestamp video_mime_type =
     (let ext = (if video_mime_type \<noteq> [] \<and> last (split_str CHR ''/'' video_mime_type) \<noteq> ''*''
                 then last (split_str CHR ''/'' video_mime_type) else ''mp4'')
      in ''veo_video_'' @ replace_char CHR '' '' CHR ''_'' (take 20 prompt)
           @ ''_'' @ timestamp @ ''.'' @ ext)"

text \<open>
  \<open>args.output_filename\<close> is \<open>None\<close> by default; \<open>None\<close> and the empty string are
  both falsy.
\<close>

definition determine_output_filename ::
  "string option \<Rightarrow> string \<Rightarrow> string \<Rightarrow> string \<Rightarrow> string" where
  "determine_output_filename output_filename prompt timestamp video_mime_type =
     (case output_filename of
        None \<Rightarrow> synthesized_filename prompt timestamp video_mime_type
      | Some name \<Rightarrow>
          if name \<noteq> [] then explicit_filename name video_mime_type
          else synthesized_filename prompt timestamp video_mime_type)"

section \<open>Effects, exceptions and the services the program calls\<close>

text \<open>
  The exceptions that occur in the model. \<open>RequestException\<close> stands for
  \<open>requests.exceptions.RequestException\<close> and its subclasses, \<open>ServiceError\<close> for any
  other subclass of \<open>Exception\<close> raised by a library; all of them are caught by
  \<open>except Exception\<close>.
\<close>

datatype exn = RequestException | ValueError | AttributeError | ServiceError string

type_synonym bytes = "nat list"

text \<open>The calls the program makes to the libraries and services, in the order made.\<close>

datatype call =
    Configure string
  | GenerativeModel string
  | GenerateContent string
  | HttpGet string
  | StorageClient
  | DownloadAsBytes string string
  | FilesCreate string "string option"
  | NextChunk

text \<open>One constructor for each \<open>print\<close> statement of the two functions.\<close>

datatype message =
    MsgGenerating string
  | MsgUsingModel string
  | ErrModelInit string
  | MsgDetails exn
  | HintModelName
  | HintModelDocs
  | MsgSending
  | ErrNoCandidates
  | MsgResponseDetails
  | ErrNoVideoData
  | MsgCandidateContent
  | MsgGenerationSuccessful "string option" string
  | MsgAttemptingDownload
  | ErrRequestsMissing
  | HintInstallRequests
  | MsgDownloadingHttps string
  | MsgDownloadedHttps nat
  | ErrHttpsDownload string exn
  | ErrStorageMissing
  | HintInstallStorage
  | MsgDownloadingGcs string
  | MsgDownloadedGcs nat
  | ErrGcsDownload string exn
  | HintGcsAuth
  | ErrUnsupportedScheme string
  | HintSupportedSchemes
  | ErrNoVideoBytes
  | ErrGeneration exn
  | ErrNoDriveService
  | MsgUploading string
  | MsgStartingUpload
  | MsgUploaded int
  | ErrChunkUpload exn
  | MsgUploadSuccess string
  | MsgFileId "string option"
  | MsgViewLink "string option"
  | ErrUpload exn

datatype event = Print message | Call call

section \<open>The Gemini response\<close>

text \<open>
  \<open>file_data\<close> of a part: the declared MIME type and the URI, each possibly \<open>None\<close>.
  A part is \<open>Part None\<close> when \<open>hasattr(part, 'file_data')\<close> is false.
\<close>

record file_data =
  mime_type :: "string option"
  file_uri :: "string option"

datatype part = Part "file_data option"

record content =
  parts :: "part list"

record candidate =
  content :: "content option"

record response =
  candidates :: "candidate list"

definition VEO_MODEL_NAME :: string where
  "VEO_MODEL_NAME = ''models/veo-1.0''"

definition DEFAULT_VIDEO_MIME_TYPE :: string where
  "DEFAULT_VIDEO_MIME_TYPE = ''video/mp4''"

text \<open>
  What the libraries answer during one run of \<open>generate_veo_video\<close>:
  \<^item> \<open>model_init\<close>: the exception raised by \<open>genai.GenerativeModel\<close>, if any;
  \<^item> \<open>generate_content\<close>: the response to a prompt, or the exception raised;
  \<^item> \<open>requests_installed\<close>, \<open>storage_installed\<close>: whether the optional imports succeeded;
  \<^item> \<open>http_get\<close>: the outcome of \<open>requests.get\<close>, \<open>raise_for_status\<close> and
    \<open>.content\<close> together, which the source handles in one \<open>try\<close>;
  \<^item> \<open>storage_client\<close>: the exception raised by \<open>storage.Client()\<close>, if any;
  \<^item> \<open>download_as_bytes\<close>: the outcome of \<open>client.bucket(b).blob(k).download_as_bytes\<close>.
  \<open>genai.configure\<close> and \<open>print\<close> are recorded as effects that return.
\<close>

record gen_env =
  model_init :: "exn option"
  generate_content :: "string \<Rightarrow> exn + response"
  requests_installed :: bool
  http_get :: "string \<Rightarrow> exn + bytes"
  storage_installed :: bool
  storage_client :: "exn option"
  download_as_bytes :: "string \<Rightarrow> string \<Rightarrow> exn + bytes"

text \<open>
  How a block of the function ends: it goes on with a value, it returns from the
  function, or it raises to the enclosing handler.
\<close>

datatype ('a, 'r) flow = Continue 'a | Return 'r | Raise exn

type_synonym gen_result = "bytes option \<times> string option"

section \<open>\<open>generate_veo_video\<close>\<close>

text \<open>
  The check of line 113: some candidate exists, the first has a content, and the
  content has parts. The result is the list of parts to scan.
\<close>

definition response_parts :: "response \<Rightarrow> part list option" where
  "response_parts r =
     (case candidates r of
        [] \<Rightarrow> None
      | c # _ \<Rightarrow>
          (case content c of
             None \<Rightarrow> None
           | Some ct \<Rightarrow> if parts ct = [] then None else Some (parts ct)))"

text \<open>
  The loop of lines 119 to 122. \<open>part.file_data.mime_type.startswith\<close> raises
  \<open>AttributeError\<close> when the MIME type is \<open>None\<close>.
\<close>

fun find_video_part :: "part list \<Rightarrow> exn + file_data option" where
  "find_video_part [] = Inr None"
| "find_video_part (Part None # ps) = find_video_part ps"
| "find_video_part (Part (Some fd) # ps) =
     (case mime_type fd of
        None \<Rightarrow> Inl AttributeError
      | Some m \<Rightarrow> if startswith m ''video/'' then Inr (Some fd) else find_video_part ps)"

text \<open>Line 133: \<open>video_part.file_data.mime_type or DEFAULT_VIDEO_MIME_TYPE\<close>.\<close>

definition mime_type_or_default :: "file_data \<Rightarrow> string" where
  "mime_type_or_default fd =
     (case mime_type fd of
        None \<Rightarrow> DEFAULT_VIDEO_MIME_TYPE
      | Some m \<Rightarrow> if m = [] then DEFAULT_VIDEO_MIME_TYPE else m)"

text \<open>Lines 140 to 156: the HTTPS branch.\<close>

definition download_https :: "gen_env \<Rightarrow> string \<Rightarrow> event list \<times> (bytes, gen_result) flow" where
  "download_https env uri =
     (if \<not> requests_installed env then
        ([Print ErrRequestsMissing, Print HintInstallRequests], Return (None, None))
      else
        (case http_get env uri of
           Inr video_bytes \<Rightarrow>
             ([Print (MsgDownloadingHttps uri), Call (HttpGet uri),
               Print (MsgDownloadedHttps (length video_bytes))], Continue video_bytes)
         | Inl e \<Rightarrow>
             if e = RequestException then
               ([Print (MsgDownloadingHttps uri), Call (HttpGet uri),
                 Print (ErrHttpsDownload uri e)], Return (None, None))
             else ([Print (MsgDownloadingHttps uri), Call (HttpGet uri)], Raise e)))"

text \<open>
  Lines 166 to 172, the body of the \<open>try\<close> of the \<open>gs://\<close> branch. Unpacking
  \<open>file_uri[5:].split("/", 1)\<close> into two names raises \<open>ValueError\<close> unless the split has
  exactly two elements.
\<close>

definition gcs_fetch :: "gen_env \<Rightarrow> string \<Rightarrow> event list \<times> (exn + bytes)" where
  "gcs_fetch env uri =
     (case storage_client env of
        Some e \<Rightarrow> ([Call StorageClient], Inl e)
      | None \<Rightarrow>
          (case split1 CHR ''/'' (drop 5 uri) of
             [bucket_name, blob_name] \<Rightarrow>
               ([Call StorageClient, Call (DownloadAsBytes bucket_name blob_name)],
                download_as_bytes env bucket_name blob_name)
           | _ \<Rightarrow> ([Call StorageClient], Inl ValueError)))"

text \<open>Lines 159 to 176: the \<open>gs://\<close> branch with its handler.\<close>

definition download_gcs :: "gen_env \<Rightarrow> string \<Rightarrow> event list \<times> (bytes, gen_result) flow" where
  "download_gcs env uri =
     (if \<not> storage_installed env then
        ([Print ErrStorageMissing, Print HintInstallStorage], Return (None, None))
      else
        (case gcs_fetch env uri of
           (evs, Inr video_bytes) \<Rightarrow>
             (Print (MsgDownloadingGcs uri) # evs @ [Print (MsgDownloadedGcs (length video_bytes))],
              Continue video_bytes)
         | (evs, Inl e) \<Rightarrow>
             (Print (MsgDownloadingGcs uri) # evs @ [Print (ErrGcsDownload uri e), Print HintGcsAuth],
              Return (None, None))))"

text \<open>
  Lines 138 to 180: the dispatch on the scheme. \<open>file_uri.startswith\<close> raises
  \<open>AttributeError\<close> when the URI is \<open>None\<close>.
\<close>

definition download_video :: "gen_env \<Rightarrow> string option \<Rightarrow> event list \<times> (bytes, gen_result) flow" where
  "download_video env uri_opt =
     (case uri_opt of
        None \<Rightarrow> ([], Raise AttributeError)
      | Some uri \<Rightarrow>
          if startswith uri ''https://'' then download_https env uri
          else if startswith uri ''gs://'' then download_gcs env uri
          else ([Print (ErrUnsupportedScheme uri), Print HintSupportedSchemes],
                Return (None, None)))"

text \<open>Lines 111 to 186: the body of the outer \<open>try\<close>.\<close>

definition generate_body :: "gen_env \<Rightarrow> string \<Rightarrow> event list \<times> (exn + gen_result)" where
  "generate_body env prompt =
     (case generate_content env prompt of
        Inl e \<Rightarrow> ([Call (GenerateContent prompt)], Inl e)
      | Inr r \<Rightarrow>
          (case response_parts r of
             None \<Rightarrow>
               ([Call (GenerateContent prompt), Print ErrNoCandidates, Print MsgResponseDetails],
                Inr (None, None))
           | Some ps \<Rightarrow>
               (case find_video_part ps of
                  Inl e \<Rightarrow> ([Call (GenerateContent prompt)], Inl e)
                | Inr None \<Rightarrow>
                    ([Call (GenerateContent prompt), Print ErrNoVideoData, Print MsgCandidateContent],
                     Inr (None, None))
                | Inr (Some fd) \<Rightarrow>
                    (let video_mime_type = mime_type_or_default fd;
                         evs = [Call (GenerateContent prompt),
                                Print (MsgGenerationSuccessful (file_uri fd) video_mime_type),
                                Print MsgAttemptingDownload]
                     in case download_video env (file_uri fd) of
                          (devs, Raise e) \<Rightarrow> (evs @ devs, Inl e)
                        | (devs, Return res) \<Rightarrow> (evs @ devs, Inr res)
                        | (devs, Continue video_bytes) \<Rightarrow>
                            if video_bytes \<noteq> [] then
                              (evs @ devs, Inr (Some video_bytes, Some video_mime_type))
                            else (evs @ devs @ [Print ErrNoVideoBytes], Inr (None, None))))))"

text \<open>
  The whole function: the value returned and everything printed and called, in order.
\<close>

definition generate_veo_video :: "gen_env \<Rightarrow> string \<Rightarrow> string \<Rightarrow> gen_result \<times> event list" where
  "generate_veo_video env prompt gemini_api_key =
     (let evs0 = [Print (MsgGenerating prompt), Print (MsgUsingModel VEO_MODEL_NAME),
                  Call (Configure gemini_api_key), Call (GenerativeModel VEO_MODEL_NAME)]
      in case model_init env of
           Some e \<Rightarrow>
             ((None, None),
              evs0 @ [Print (ErrModelInit VEO_MODEL_NAME), Print (MsgDetails e),
                      Print HintModelName, Print HintModelDocs])
         | None \<Rightarrow>
             (case generate_body env prompt of
                (evs, Inr res) \<Rightarrow> (res, evs0 @ Print MsgSending # evs)
              | (evs, Inl e) \<Rightarrow>
                  ((None, None), evs0 @ Print MsgSending # evs @ [Print (ErrGeneration e)])))"

text \<open>The retrieval calls among the events of a run.\<close>

fun is_retrieval :: "event \<Rightarrow> bool" where
  "is_retrieval (Call (HttpGet _)) = True"
| "is_retrieval (Call StorageClient) = True"
| "is_retrieval (Call (DownloadAsBytes _ _)) = True"
| "is_retrieval _ = False"

section \<open>\<open>upload_to_drive\<close>\<close>

text \<open>
  The progress object that \<open>next_chunk\<close> returns. \<open>progress_percent\<close> is the integer
  \<open>int(status.progress() * 100)\<close> that the loop computes from it; the floating-point
  product itself is not modelled.
\<close>

record status =
  progress_percent :: int

text \<open>The response of the Drive service is a dictionary.\<close>

type_synonym drive_response = "string \<rightharpoonup> string"

text \<open>One call of \<open>request.next_chunk()\<close>: it raises, or returns \<open>(status, response)\<close>.\<close>

datatype chunk_result =
    ChunkRaises exn
  | ChunkReturns "status option" "drive_response option"

text \<open>
  The Drive service during one upload: the exception raised by
  \<open>drive_service.files().create\<close>, if any, and the answers of the successive calls of
  \<open>next_chunk\<close>. The list is a finite prefix of what the service would answer.
\<close>

record drive_service =
  files_create :: "exn option"
  next_chunk :: "chunk_result list"

datatype upload_end = Completed drive_response | ChunkFailed exn

text \<open>Lines 220 to 224: the progress report after one chunk.\<close>

definition report_progress :: "status option \<Rightarrow> int \<Rightarrow> int \<times> event list" where
  "report_progress st progress =
     (case st of
        None \<Rightarrow> (progress, [])
      | Some s \<Rightarrow>
          (let new_progress = progress_percent s in
           if new_progress > progress then (new_progress, [Print (MsgUploaded new_progress)])
           else (progress, [])))"

text \<open>
  The loop of lines 217 to 228, started with the current value of \<open>progress\<close>. It ends
  when a call returns a response or raises; the result is \<open>None\<close> when the answers run
  out while \<open>response\<close> is still \<open>None\<close>, that is when the loop has not ended yet.
\<close>

fun upload_loop :: "chunk_result list \<Rightarrow> int \<Rightarrow> event list \<times> upload_end option" where
  "upload_loop [] progress = ([], None)"
| "upload_loop (ChunkRaises e # rest) progress =
     ([Call NextChunk, Print (ErrChunkUpload e)], Some (ChunkFailed e))"
| "upload_loop (ChunkReturns st (Some response) # rest) progress =
     (Call NextChunk # snd (report_progress st progress), Some (Completed response))"
| "upload_loop (ChunkReturns st None # rest) progress =
     (case upload_loop rest (fst (report_progress st progress)) of
        (evs, r) \<Rightarrow> (Call NextChunk # snd (report_progress st progress) @ evs, r))"

text \<open>Lines 202 to 204: \<open>parents\<close> is set when \<open>folder_id\<close> is truthy.\<close>

definition parents_of :: "string option \<Rightarrow> string option" where
  "parents_of folder_id =
     (case folder_id of
        None \<Rightarrow> None
      | Some f \<Rightarrow> if f \<noteq> [] then Some f else None)"

text \<open>
  The whole function. The second component is \<open>None\<close> when the function has not
  returned within the answers given, \<open>Some None\<close> when it returned \<open>None\<close>, and
  \<open>Some (Some link)\<close> when it returned \<open>response.get('webViewLink')\<close>.
\<close>

definition upload_to_drive ::
  "drive_service option \<Rightarrow> string \<Rightarrow> bytes \<Rightarrow> string \<Rightarrow> string option
     \<Rightarrow> event list \<times> string option option" where
  "upload_to_drive drive_service filename video_bytes mimetype folder_id =
     (case drive_service of
        None \<Rightarrow> ([Print ErrNoDriveService], Some None)
      | Some svc \<Rightarrow>
          (let evs0 = [Print (MsgUploading filename),
                       Call (FilesCreate filename (parents_of folder_id))]
           in case files_create svc of
                Some e \<Rightarrow> (evs0 @ [Print (ErrUpload e)], Some None)
              | None \<Rightarrow>
                  (case upload_loop (next_chunk svc) 0 of
                     (evs, None) \<Rightarrow> (evs0 @ Print MsgStartingUpload # evs, None)
                   | (evs, Some (ChunkFailed e)) \<Rightarrow>
                       (evs0 @ Print MsgStartingUpload # evs, Some None)
                   | (evs, Some (Completed response)) \<Rightarrow>
                       (let file_id = response ''id'';
                            file_link = response ''webViewLink''
                        in (evs0 @ Print MsgStartingUpload # evs
                              @ [Print (MsgUploadSuccess filename), Print (MsgFileId file_id),
                                 Print (MsgViewLink file_link)],
                            Some file_link)))))"

section \<open>Reading a run\<close>

text \<open>The calls among the events of a run, and the percentages printed.\<close>

fun the_call :: "event \<Rightarrow> call option" where
  "the_call (Call c) = Some c"
| "the_call (Print _) = None"

definition calls_of :: "event list \<Rightarrow> call list" where
  "calls_of evs = List.map_filter the_call evs"

fun the_percent :: "event \<Rightarrow> int option" where
  "the_percent (Print (MsgUploaded p)) = Some p"
| "the_percent _ = None"

definition reported :: "event list \<Rightarrow> int list" where
  "reported evs = List.map_filter the_percent evs"

text \<open>A call of \<open>next_chunk\<close> that returns without a response: the loop goes on.\<close>

fun pending :: "chunk_result \<Rightarrow> bool" where
  "pending (ChunkReturns _ None) = True"
| "pending _ = False"

text \<open>
  The whole-percent values of the progress objects that the loop receives, in order,
  until it ends.
\<close>

fun sampled :: "chunk_result list \<Rightarrow> int list" where
  "sampled [] = []"
| "sampled (ChunkRaises e # rest) = []"
| "sampled (ChunkReturns st response # rest) =
     (case st of None \<Rightarrow> [] | Some s \<Rightarrow> [progress_percent s])
       @ (case response of None \<Rightarrow> sampled rest | Some _ \<Rightarrow> [])"

text \<open>
  The values of a list that exceed \<open>p\<close> and every value before them: the increases of
  a sequence of samples over a starting value \<open>p\<close>.
\<close>

fun increases :: "int \<Rightarrow> int list \<Rightarrow> int list" where
  "increases p [] = []"
| "increases p (v # vs) = (if v > p then v # increases v vs else increases p vs)"

text \<open>
  A part whose file reference declares a MIME type beginning with \<open>video/\<close>.
\<close>

fun declares_video :: "part \<Rightarrow> bool" where
  "declares_video (Part None) = False"
| "declares_video (Part (Some fd)) =
     (case mime_type fd of None \<Rightarrow> False | Some m \<Rightarrow> startswith m ''video/'')"

section \<open>Example runs\<close>

text \<open>A response with one candidate whose content is the given parts.\<close>

definition response_with :: "part list \<Rightarrow> response" where
  "response_with ps = \<lparr>candidates = [\<lparr>content = Some \<lparr>parts = ps\<rparr>\<rparr>]\<rparr>"

definition video_part :: "string \<Rightarrow> string \<Rightarrow> part" where
  "video_part m uri = Part (Some \<lparr>mime_type = Some m, file_uri = Some uri\<rparr>)"

text \<open>
  An environment in which both optional libraries are installed, every download
  yields the same four bytes, and the model answers every prompt with \<open>r\<close>, unless
  \<open>init\<close> is the exception that rejects the model name.
\<close>

definition example_env :: "exn option \<Rightarrow> response \<Rightarrow> gen_env" where
  "example_env init r =
     \<lparr>model_init = init,
      generate_content = (\<lambda>_. Inr r),
      requests_installed = True,
      http_get = (\<lambda>_. Inr [0, 0, 0, 24]),
      storage_installed = True,
      storage_client = None,
      download_as_bytes = (\<lambda>_ _. Inr [0, 0, 0, 24])\<rparr>"

text \<open>
  Responses of the Drive service: one with both fields, one without an identifier.
\<close>

definition full_response :: drive_response where
  "full_response = [''id'' \<mapsto> ''1a2b'', ''webViewLink'' \<mapsto> ''https://drive.example/1a2b/view'']"

definition link_only_response :: drive_response where
  "link_only_response = [''webViewLink'' \<mapsto> ''https://drive.example/1a2b/view'']"

text \<open>
  An upload in five chunks, reporting 20, 40, 60 and 80 percent and then the response;
  the same upload with the second call raising.
\<close>

definition five_chunks :: "drive_response \<Rightarrow> drive_service" where
  "five_chunks r =
     \<lparr>files_create = None,
      next_chunk = [ChunkReturns (Some \<lparr>progress_percent = 20\<rparr>) None,
                    ChunkReturns (Some \<lparr>progress_percent = 40\<rparr>) None,
                    ChunkReturns (Some \<lparr>progress_percent = 60\<rparr>) None,
                    ChunkReturns (Some \<lparr>progress_percent = 80\<rparr>) None,
                    ChunkReturns None (Some r)]\<rparr>"

definition second_chunk_fails :: drive_service where
  "second_chunk_fails =
     \<lparr>files_create = None,
      next_chunk = [ChunkReturns (Some \<lparr>progress_percent = 20\<rparr>) None,
                    ChunkRaises (ServiceError ''connection reset''),
                    ChunkReturns (Some \<lparr>progress_percent = 60\<rparr>) None,
                    ChunkReturns (Some \<lparr>progress_percent = 80\<rparr>) None,
                    ChunkReturns None (Some full_response)]\<rparr>"

text \<open>An upload whose first call of \<open>next_chunk\<close> already returns the response.\<close>

definition one_chunk :: "drive_response \<Rightarrow> drive_service" where
  "one_chunk r = \<lparr>files_create = None, next_chunk = [ChunkReturns None (Some r)]\<rparr>"

section \<open>Properties of the output filename\<close>

lemma split_str_nonempty: "split_str sep s \<noteq> []"
  by (induction s) (auto simp: Let_def)

lemma split_str_no_sep: "sep \<notin> set s \<Longrightarrow> split_str sep s = [s]"
  by (induction s) (auto simp: Let_def)

lemma split_str_sep_tl: "sep \<in> set s \<Longrightarrow> tl (split_str sep s) \<noteq> []"
  by (induction s) (auto simp: Let_def split_str_nonempty)

lemma last_split_str_append:
  "sep \<notin> set sub \<Longrightarrow> last (split_str sep (ty @ sep # sub)) = sub"
proof (induction ty)
  case Nil
  then show ?case by (simp add: split_str_no_sep)
next
  case (Cons c ty)
  let ?r = "split_str sep (ty @ sep # sub)"
  have ne: "?r \<noteq> []" by (rule split_str_nonempty)
  have tl_ne: "tl ?r \<noteq> []" by (rule split_str_sep_tl) simp
  have last_tl: "last (tl ?r) = last ?r"
    using ne tl_ne by (cases ?r) auto
  show ?case
  proof (cases "c = sep")
    case True
    with Cons ne show ?thesis by simp
  next
    case False
    then have "last (split_str sep ((c # ty) @ sep # sub)) = last (tl ?r)"
      using tl_ne by (simp add: Let_def)
    with last_tl Cons show ?thesis by simp
  qed
qed

lemma split1_no_sep: "sep \<notin> set s \<Longrightarrow> split1 sep s = [s]"
  by (induction s) (auto simp: Let_def)

lemma endswith_append_self: "endswith (xs @ x) x"
  by (simp add: endswith_def)

lemma lower_append: "lower (xs @ ys) = lower xs @ lower ys"
  by (simp add: lower_def)

lemma explicit_filename_cases:
  "explicit_filename name m =
     (if endswith_any (lower name) known_video_extensions then name
      else name @ ''.'' @ appended_ext m)"
  by (simp add: explicit_filename_def appended_ext_def Let_def)

lemma explicit_filename_fixed:
  "(explicit_filename (explicit_filename name m) m = explicit_filename name m)
     = endswith_any (lower (explicit_filename name m)) known_video_extensions"
  by (subst (1) explicit_filename_cases) simp

text \<open>
  Claim C7. An explicit (non-empty) output name that already ends, ignoring case, in one
  of the five known video extensions is kept; any other name gets a dot and the subtype
  of the content type appended, or \<open>mp4\<close> when the subtype is empty or \<open>*\<close>. So
  \<open>clip\<close> with \<open>video/mp4\<close> becomes \<open>clip.mp4\<close> and \<open>clip.mov\<close> stays as it is.
\<close>

theorem explicit_name_gets_extension:
  assumes "name \<noteq> []" and "CHR ''/'' \<notin> set sub"
  shows "determine_output_filename (Some name) prompt timestamp (ty @ ''/'' @ sub) =
           (if \<exists>e \<in> set [''.mp4'', ''.mov'', ''.avi'', ''.webm'', ''.mkv'']. endswith (lower name) e
            then name
            else name @ ''.'' @ (if sub = [] \<or> sub = ''*'' then ''mp4'' else sub))
         \<and> determine_output_filename (Some ''clip'') prompt timestamp ''video/mp4'' = ''clip.mp4''
         \<and> determine_output_filename (Some ''clip.mov'') prompt timestamp mime = ''clip.mov''"
proof -
  have sub: "last (split_str CHR ''/'' (ty @ ''/'' @ sub)) = sub"
    using last_split_str_append [OF assms(2), of ty] by simp
  have general: "determine_output_filename (Some name) prompt timestamp (ty @ ''/'' @ sub) =
           (if \<exists>e \<in> set [''.mp4'', ''.mov'', ''.avi'', ''.webm'', ''.mkv'']. endswith (lower name) e
            then name
            else name @ ''.'' @ (if sub = [] \<or> sub = ''*'' then ''mp4'' else sub))"
    using assms(1) sub
    by (simp add: determine_output_filename_def explicit_filename_def endswith_any_def
        known_video_extensions_def Let_def list_ex_iff del: set_simps)
  have clip: "determine_output_filename (Some ''clip'') prompt timestamp ''video/mp4'' = ''clip.mp4''"
    by (simp add: determine_output_filename_def explicit_filename_def endswith_any_def
        endswith_def lower_def lower_char_def known_video_extensions_def)
  have mov: "determine_output_filename (Some ''clip.mov'') prompt timestamp mime = ''clip.mov''"
    by (simp add: determine_output_filename_def explicit_filename_def endswith_any_def
        endswith_def lower_def lower_char_def known_video_extensions_def)
  from general clip mov show ?thesis by blast
qed

theorem explicit_name_gets_extension_witness:
  "''holiday'' \<noteq> [] \<and> CHR ''/'' \<notin> set ''*''
   \<and> determine_output_filename (Some ''holiday'') ''a cat'' ''20240101-120000'' ''video/*''
       = ''holiday.mp4''
   \<and> determine_output_filename (Some ''Final.MKV'') ''a cat'' ''20240101-120000'' ''video/webm''
       = ''Final.MKV''"
proof -
  have a: "determine_output_filename (Some ''holiday'') ''a cat'' ''20240101-120000'' ''video/*''
             = ''holiday.mp4''"
    using explicit_name_gets_extension
            [of "''holiday''" "''*''" "''a cat''" "''20240101-120000''" "''video''"]
    by (simp add: endswith_def lower_def lower_char_def)
  have b: "determine_output_filename (Some ''Final.MKV'') ''a cat'' ''20240101-120000'' ''video/webm''
             = ''Final.MKV''"
    using explicit_name_gets_extension
            [of "''Final.MKV''" "''webm''" "''a cat''" "''20240101-120000''" "''video''"]
    by (simp add: endswith_def lower_def lower_char_def)
  from a b show ?thesis by simp
qed

lemma lower_dot: "lower (name @ CHR ''.'' # e) = lower name @ CHR ''.'' # lower e"
  by (simp add: lower_def lower_char_def)

lemma known_after_append:
  "''.'' @ lower e \<in> set known_video_extensions \<Longrightarrow>
     endswith_any (lower (name @ ''.'' @ e)) known_video_extensions"
proof -
  assume k: "''.'' @ lower e \<in> set known_video_extensions"
  have "endswith (lower (name @ ''.'' @ e)) (''.'' @ lower e)"
    using endswith_append_self [of "lower name" "''.'' @ lower e"] by (simp add: lower_dot)
  with k show ?thesis
    unfolding endswith_any_def list_ex_iff by blast
qed

lemma appended_ext_subtype:
  "CHR ''/'' \<notin> set sub \<Longrightarrow>
     appended_ext (ty @ ''/'' @ sub) = (if sub = [] \<or> sub = ''*'' then ''mp4'' else sub)"
  using last_split_str_append [of "CHR ''/''" sub ty] by (simp add: appended_ext_def)

text \<open>
  Deriving twice is not always the same as deriving once: the subtype of
  \<open>video/quicktime\<close> is not a known extension, so the derived name \<open>clip.quicktime\<close>
  gets the subtype appended again.
\<close>

theorem derivation_idempotent_counterexample:
  "determine_output_filename
      (Some (determine_output_filename (Some ''clip'') ''a cat'' ''20240101-120000'' ''video/quicktime''))
      ''a cat'' ''20240101-120000'' ''video/quicktime''
     \<noteq> determine_output_filename (Some ''clip'') ''a cat'' ''20240101-120000'' ''video/quicktime''
   \<and> determine_output_filename (Some ''clip'') ''a cat'' ''20240101-120000'' ''video/quicktime''
     = ''clip.quicktime''
   \<and> determine_output_filename (Some ''clip.quicktime'') ''a cat'' ''20240101-120000'' ''video/quicktime''
     = ''clip.quicktime.quicktime''"
  by (simp add: determine_output_filename_def explicit_filename_def endswith_any_def
      endswith_def lower_def lower_char_def known_video_extensions_def)

lemma derivation_idempotent_parts:
  assumes "name \<noteq> []"
  shows "(determine_output_filename
            (Some (determine_output_filename (Some name) prompt timestamp mime))
            prompt timestamp mime
          = determine_output_filename (Some name) prompt timestamp mime)
         = (\<exists>e \<in> set [''.mp4'', ''.mov'', ''.avi'', ''.webm'', ''.mkv''].
              endswith (lower (determine_output_filename (Some name) prompt timestamp mime)) e)"
    and "(\<exists>e \<in> set [''.mp4'', ''.mov'', ''.avi'', ''.webm'', ''.mkv'']. endswith (lower name) e)
         \<or> (CHR ''/'' \<notin> set sub \<and> mime = ty @ ''/'' @ sub
             \<and> (sub = [] \<or> sub = ''*'' \<or> lower sub \<in> set [''mp4'', ''mov'', ''avi'', ''webm'', ''mkv'']))
         \<Longrightarrow> determine_output_filename
               (Some (determine_output_filename (Some name) prompt timestamp mime))
               prompt timestamp mime
             = determine_output_filename (Some name) prompt timestamp mime"
proof -
  let ?d = "explicit_filename name mime"
  have d: "determine_output_filename (Some name) prompt timestamp mime = ?d"
    using assms by (simp add: determine_output_filename_def)
  have ne: "?d \<noteq> []"
    using assms by (simp add: explicit_filename_cases)
  have dd: "determine_output_filename (Some ?d) prompt timestamp mime = explicit_filename ?d mime"
    using ne by (simp add: determine_output_filename_def)
  have known: "endswith_any s known_video_extensions
                 = (\<exists>e \<in> set [''.mp4'', ''.mov'', ''.avi'', ''.webm'', ''.mkv'']. endswith s e)" for s
    by (simp add: endswith_any_def known_video_extensions_def list_ex_iff del: set_simps)
  show iff: "(determine_output_filename
            (Some (determine_output_filename (Some name) prompt timestamp mime))
            prompt timestamp mime
          = determine_output_filename (Some name) prompt timestamp mime)
         = (\<exists>e \<in> set [''.mp4'', ''.mov'', ''.avi'', ''.webm'', ''.mkv''].
              endswith (lower (determine_output_filename (Some name) prompt timestamp mime)) e)"
    unfolding d dd known [symmetric] by (rule explicit_filename_fixed)
  assume c: "(\<exists>e \<in> set [''.mp4'', ''.mov'', ''.avi'', ''.webm'', ''.mkv'']. endswith (lower name) e)
         \<or> (CHR ''/'' \<notin> set sub \<and> mime = ty @ ''/'' @ sub
             \<and> (sub = [] \<or> sub = ''*'' \<or> lower sub \<in> set [''mp4'', ''mov'', ''avi'', ''webm'', ''mkv'']))"
  have "endswith_any (lower ?d) known_video_extensions"
  proof (cases "endswith_any (lower name) known_video_extensions")
    case True
    then show ?thesis by (simp add: explicit_filename_cases)
  next
    case False
    with c have s: "CHR ''/'' \<notin> set sub" and m: "mime = ty @ ''/'' @ sub"
      and k: "sub = [] \<or> sub = ''*'' \<or> lower sub \<in> set [''mp4'', ''mov'', ''avi'', ''webm'', ''mkv'']"
      unfolding known by blast+
    have e: "appended_ext mime = (if sub = [] \<or> sub = ''*'' then ''mp4'' else sub)"
      unfolding m using s by (rule appended_ext_subtype)
    have "''.'' @ lower (appended_ext mime) \<in> set known_video_extensions"
    proof (cases "sub = [] \<or> sub = ''*''")
      case True
      with e show ?thesis by (simp add: known_video_extensions_def lower_def lower_char_def)
    next
      case False
      with e k show ?thesis by (auto simp: known_video_extensions_def)
    qed
    then have "endswith_any (lower (name @ ''.'' @ appended_ext mime)) known_video_extensions"
      by (rule known_after_append)
    with False show ?thesis by (simp add: explicit_filename_cases)
  qed
  with iff show "determine_output_filename
               (Some (determine_output_filename (Some name) prompt timestamp mime))
               prompt timestamp mime
             = determine_output_filename (Some name) prompt timestamp mime"
    unfolding d known by simp
qed


text \<open>
  Claim C2, as the code has it. For an explicit (non-empty) name, deriving a second time
  with the same content type gives the same filename exactly when the first result
  ends, ignoring case, in a known video extension. That is so whenever the name already
  ends in one, or the subtype of the content type is empty, \<open>*\<close>, or, ignoring case,
  one of \<open>mp4\<close>, \<open>mov\<close>, \<open>avi\<close>, \<open>webm\<close>, \<open>mkv\<close>.
\<close>

theorem derivation_idempotent_when_recognized:
  assumes "name \<noteq> []"
  shows "((determine_output_filename
            (Some (determine_output_filename (Some name) prompt timestamp mime))
            prompt timestamp mime
          = determine_output_filename (Some name) prompt timestamp mime)
         = (\<exists>e \<in> set [''.mp4'', ''.mov'', ''.avi'', ''.webm'', ''.mkv''].
              endswith (lower (determine_output_filename (Some name) prompt timestamp mime)) e))
       \<and> ((\<exists>e \<in> set [''.mp4'', ''.mov'', ''.avi'', ''.webm'', ''.mkv'']. endswith (lower name) e)
            \<or> (CHR ''/'' \<notin> set sub \<and> mime = ty @ ''/'' @ sub
                \<and> (sub = [] \<or> sub = ''*''
                     \<or> lower sub \<in> set [''mp4'', ''mov'', ''avi'', ''webm'', ''mkv'']))
           \<longrightarrow> determine_output_filename
                 (Some (determine_output_filename (Some name) prompt timestamp mime))
                 prompt timestamp mime
               = determine_output_filename (Some name) prompt timestamp mime)"
  using derivation_idempotent_parts(1) [OF assms, of prompt timestamp mime]
        derivation_idempotent_parts(2) [OF assms, where sub = sub and ty = ty and mime = mime]
  by blast

theorem derivation_idempotent_when_recognized_witness:
  "''clip'' \<noteq> []
   \<and> determine_output_filename
        (Some (determine_output_filename (Some ''clip'') ''a cat'' ''20240101-120000'' ''video/WebM''))
        ''a cat'' ''20240101-120000'' ''video/WebM''
     = determine_output_filename (Some ''clip'') ''a cat'' ''20240101-120000'' ''video/WebM''
   \<and> determine_output_filename (Some ''clip'') ''a cat'' ''20240101-120000'' ''video/WebM''
     = ''clip.WebM''"
proof -
  have n: "''clip'' \<noteq> []" by simp
  have c: "CHR ''/'' \<notin> set ''WebM'' \<and> ''video/WebM'' = ''video'' @ ''/'' @ ''WebM''
           \<and> lower ''WebM'' \<in> set [''mp4'', ''mov'', ''avi'', ''webm'', ''mkv'']"
    by (simp add: lower_def lower_char_def)
  have "determine_output_filename
        (Some (determine_output_filename (Some ''clip'') ''a cat'' ''20240101-120000'' ''video/WebM''))
        ''a cat'' ''20240101-120000'' ''video/WebM''
     = determine_output_filename (Some ''clip'') ''a cat'' ''20240101-120000'' ''video/WebM''"
    using derivation_idempotent_when_recognized
            [OF n, where prompt = "''a cat''" and timestamp = "''20240101-120000''"
               and mime = "''video/WebM''" and sub = "''WebM''" and ty = "''video''"] c
    by blast
  moreover have "determine_output_filename (Some ''clip'') ''a cat'' ''20240101-120000'' ''video/WebM''
     = ''clip.WebM''"
    by (simp add: determine_output_filename_def explicit_filename_def endswith_any_def
        endswith_def lower_def lower_char_def known_video_extensions_def)
  ultimately show ?thesis by simp
qed

text \<open>
  The first 20 characters of the prompt \<open>A cat riding a skateboard down a hill\<close> are
  \<open>A cat riding a skate\<close>, so the synthesized name is not the one with \<open>skateboar\<close>.
\<close>

theorem synthesized_name_counterexample:
  "determine_output_filename None ''A cat riding a skateboard down a hill'' ''20240101-120000''
       ''video/webm''
     \<noteq> ''veo_video_A_cat_riding_a_skateboar_20240101-120000.webm''"
  by (simp add: determine_output_filename_def synthesized_filename_def replace_char_def)

text \<open>
  Claim C3, with the worked example as the code computes it. Without an explicit name
  the filename is \<open>veo_video_\<close>, the first 20 characters of the prompt with spaces
  replaced by underscores, an underscore, the timestamp, a dot, and the extension
  inferred from the content type: for a non-empty subtype, the subtype, or \<open>mp4\<close> when
  it is \<open>*\<close>. For the prompt \<open>A cat riding a skateboard down a hill\<close>, \<open>video/webm\<close>
  and the timestamp \<open>20240101-120000\<close> it is
  \<open>veo_video_A_cat_riding_a_skate_20240101-120000.webm\<close>.
\<close>

theorem synthesized_name_shape:
  assumes "CHR ''/'' \<notin> set sub" and "sub \<noteq> []"
  shows "determine_output_filename None prompt timestamp (ty @ ''/'' @ sub) =
           ''veo_video_'' @ map (\<lambda>c. if c = CHR '' '' then CHR ''_'' else c) (take 20 prompt)
             @ ''_'' @ timestamp @ ''.'' @ (if sub = ''*'' then ''mp4'' else sub)
         \<and> determine_output_filename None ''A cat riding a skateboard down a hill''
               ''20240101-120000'' ''video/webm''
             = ''veo_video_A_cat_riding_a_skate_20240101-120000.webm''"
proof -
  have sub: "last (split_str CHR ''/'' (ty @ ''/'' @ sub)) = sub"
    using last_split_str_append [OF assms(1), of ty] by simp
  have general: "determine_output_filename None prompt timestamp (ty @ ''/'' @ sub) =
           ''veo_video_'' @ map (\<lambda>c. if c = CHR '' '' then CHR ''_'' else c) (take 20 prompt)
             @ ''_'' @ timestamp @ ''.'' @ (if sub = ''*'' then ''mp4'' else sub)"
    using sub by (simp add: determine_output_filename_def synthesized_filename_def replace_char_def)
  have cat: "determine_output_filename None ''A cat riding a skateboard down a hill''
               ''20240101-120000'' ''video/webm''
             = ''veo_video_A_cat_riding_a_skate_20240101-120000.webm''"
    by (simp add: determine_output_filename_def synthesized_filename_def replace_char_def)
  from general cat show ?thesis by simp
qed

theorem synthesized_name_shape_witness:
  "CHR ''/'' \<notin> set ''*'' \<and> ''*'' \<noteq> []
   \<and> determine_output_filename None ''two dogs'' ''20250315-093000'' ''video/*''
       = ''veo_video_two_dogs_20250315-093000.mp4''"
  using synthesized_name_shape [of "''*''" "''two dogs''" "''20250315-093000''" "''video''"]
  by simp

section \<open>Properties of \<open>generate_veo_video\<close>\<close>

lemma find_video_part_found:
  "find_video_part ps = Inr (Some fd) \<Longrightarrow>
     (\<exists>m. mime_type fd = Some m \<and> startswith m ''video/'')
     \<and> find declares_video ps = Some (Part (Some fd))"
proof (induction ps rule: find_video_part.induct)
  case 1
  then show ?case by simp
next
  case (2 ps)
  then show ?case by simp
next
  case (3 fd' ps)
  then show ?case by (auto split: option.splits if_splits)
qed

lemma startswith_nonempty: "startswith m ''video/'' \<Longrightarrow> m \<noteq> []"
  by (auto simp: startswith_def)

lemma mime_type_or_default_declared:
  "mime_type fd = Some m \<Longrightarrow> m \<noteq> [] \<Longrightarrow> mime_type_or_default fd = m"
  by (simp add: mime_type_or_default_def)

lemma download_https_return: "download_https env uri = (evs, Return res) \<Longrightarrow> res = (None, None)"
  by (auto simp: download_https_def split: if_splits sum.splits)

lemma download_gcs_return: "download_gcs env uri = (evs, Return res) \<Longrightarrow> res = (None, None)"
  by (auto simp: download_gcs_def split: if_splits sum.splits prod.splits)

lemma download_video_return: "download_video env u = (evs, Return res) \<Longrightarrow> res = (None, None)"
  by (auto simp: download_video_def split: option.splits if_splits
      dest: download_https_return download_gcs_return)

lemma generate_body_result:
  assumes "generate_body env prompt = (evs, Inr res)"
  shows "res = (None, None) \<or>
         (\<exists>r ps fd b m. generate_content env prompt = Inr r \<and> response_parts r = Some ps
            \<and> find_video_part ps = Inr (Some fd) \<and> mime_type fd = Some m
            \<and> res = (Some b, Some m) \<and> b \<noteq> [] \<and> startswith m ''video/'')"
proof (cases "generate_content env prompt")
  case (Inl e)
  with assms show ?thesis by (simp add: generate_body_def)
next
  case (Inr r)
  note gc = this
  show ?thesis
  proof (cases "response_parts r")
    case None
    with assms gc show ?thesis by (simp add: generate_body_def)
  next
    case (Some ps)
    note rp = this
    show ?thesis
    proof (cases "find_video_part ps")
      case (Inl e)
      with assms gc rp show ?thesis by (simp add: generate_body_def)
    next
      case (Inr found)
      show ?thesis
      proof (cases found)
        case None
        with assms gc rp Inr show ?thesis by (simp add: generate_body_def)
      next
        case (Some fd)
        with Inr have fv: "find_video_part ps = Inr (Some fd)" by simp
        from find_video_part_found [OF fv] obtain m
          where m: "mime_type fd = Some m" and v: "startswith m ''video/''" by blast
        have md: "mime_type_or_default fd = m"
          using m v by (simp add: mime_type_or_default_declared startswith_nonempty)
        obtain devs fl where dv: "download_video env (file_uri fd) = (devs, fl)"
          by (cases "download_video env (file_uri fd)")
        show ?thesis
        proof (cases fl)
          case (Continue b)
          with assms gc rp fv dv md m v show ?thesis
            by (auto simp: generate_body_def Let_def split: if_splits)
        next
          case (Return x)
          with dv have "x = (None, None)" by (auto dest: download_video_return)
          with Return assms gc rp fv dv show ?thesis
            by (simp add: generate_body_def Let_def)
        next
          case (Raise e)
          with assms gc rp fv dv show ?thesis by (simp add: generate_body_def Let_def)
        qed
      qed
    qed
  qed
qed

lemma generate_veo_video_result:
  "fst (generate_veo_video env prompt key) = (None, None)
   \<or> (\<exists>r ps fd b m. model_init env = None \<and> generate_content env prompt = Inr r
          \<and> response_parts r = Some ps
          \<and> find_video_part ps = Inr (Some fd) \<and> mime_type fd = Some m
          \<and> fst (generate_veo_video env prompt key) = (Some b, Some m)
          \<and> b \<noteq> [] \<and> startswith m ''video/'')"
proof (cases "model_init env")
  case (Some e)
  then show ?thesis by (simp add: generate_veo_video_def)
next
  case None
  obtain evs out where gb: "generate_body env prompt = (evs, out)"
    by (cases "generate_body env prompt")
  show ?thesis
  proof (cases out)
    case (Inl e)
    with None gb show ?thesis by (simp add: generate_veo_video_def)
  next
    case (Inr res)
    with gb have "generate_body env prompt = (evs, Inr res)" by simp
    from generate_body_result [OF this] None gb Inr show ?thesis
      by (auto simp: generate_veo_video_def)
  qed
qed


lemma generate_reaches_download:
  assumes "model_init env = None" and "generate_content env prompt = Inr r"
    and "response_parts r = Some ps" and "find_video_part ps = Inr (Some fd)"
    and "download_video env (file_uri fd) = (devs, Return res)"
  shows "generate_veo_video env prompt key =
           (res, [Print (MsgGenerating prompt), Print (MsgUsingModel VEO_MODEL_NAME),
                  Call (Configure key), Call (GenerativeModel VEO_MODEL_NAME),
                  Print MsgSending, Call (GenerateContent prompt),
                  Print (MsgGenerationSuccessful (file_uri fd) (mime_type_or_default fd)),
                  Print MsgAttemptingDownload] @ devs)"
  using assms by (simp add: generate_veo_video_def generate_body_def Let_def)

text \<open>
  The value returned on failure does not tell the phases apart: a run in which the
  model name is rejected and a run in which the URI has an unsupported scheme both
  return \<open>(None, None)\<close>, and only the messages printed differ. Even the final message
  can be the same for two phases: an exception of \<open>generate_content\<close> and an exception
  other than \<open>RequestException\<close> during the HTTPS download both end in the handler of
  line 188.
\<close>

theorem generate_failure_kind_counterexample:
  "fst (generate_veo_video (example_env (Some (ServiceError ''unknown model'')) (response_with []))
          ''a cat'' ''key'') = (None, None)
   \<and> fst (generate_veo_video
            (example_env None (response_with [video_part ''video/mp4'' ''ftp://host/v.mp4'']))
            ''a cat'' ''key'') = (None, None)
   \<and> Print (ErrModelInit VEO_MODEL_NAME)
       \<in> set (snd (generate_veo_video
                     (example_env (Some (ServiceError ''unknown model'')) (response_with []))
                     ''a cat'' ''key''))
   \<and> Print (ErrUnsupportedScheme ''ftp://host/v.mp4'')
       \<in> set (snd (generate_veo_video
                     (example_env None (response_with [video_part ''video/mp4'' ''ftp://host/v.mp4'']))
                     ''a cat'' ''key''))
   \<and> generate_veo_video
         ((example_env None (response_with []))
            \<lparr>generate_content := (\<lambda>_. Inl (ServiceError ''timed out''))\<rparr>)
         ''a cat'' ''key''
       = ((None, None),
          [Print (MsgGenerating ''a cat''), Print (MsgUsingModel ''models/veo-1.0''),
           Call (Configure ''key''), Call (GenerativeModel ''models/veo-1.0''),
           Print MsgSending, Call (GenerateContent ''a cat''),
           Print (ErrGeneration (ServiceError ''timed out''))])
   \<and> generate_veo_video
         ((example_env None (response_with [video_part ''video/mp4'' ''https://host/v.mp4'']))
            \<lparr>http_get := (\<lambda>_. Inl (ServiceError ''timed out''))\<rparr>)
         ''a cat'' ''key''
       = ((None, None),
          [Print (MsgGenerating ''a cat''), Print (MsgUsingModel ''models/veo-1.0''),
           Call (Configure ''key''), Call (GenerativeModel ''models/veo-1.0''),
           Print MsgSending, Call (GenerateContent ''a cat''),
           Print (MsgGenerationSuccessful (Some ''https://host/v.mp4'') ''video/mp4''),
           Print MsgAttemptingDownload, Print (MsgDownloadingHttps ''https://host/v.mp4''),
           Call (HttpGet ''https://host/v.mp4''),
           Print (ErrGeneration (ServiceError ''timed out''))])"
  by (simp add: generate_veo_video_def generate_body_def example_env_def response_with_def
      video_part_def response_parts_def startswith_def download_video_def download_https_def
      mime_type_or_default_def VEO_MODEL_NAME_def Let_def)

text \<open>
  Claim C1, as the code has it. For every prompt and every behaviour of the services,
  \<open>generate_veo_video\<close> returns either the one failure value \<open>(None, None)\<close>, whatever
  phase failed, or a non-empty byte buffer together with a content type that begins
  with \<open>video/\<close>; it never returns a buffer without a type or a type without a buffer.
\<close>

theorem generate_returns_video_or_failure:
  "fst (generate_veo_video env prompt key) = (None, None)
   \<or> (\<exists>b m. fst (generate_veo_video env prompt key) = (Some b, Some m)
          \<and> b \<noteq> [] \<and> startswith m ''video/'')"
  using generate_veo_video_result [of env prompt key] by blast

theorem generate_returns_video_or_failure_witness:
  "fst (generate_veo_video
          (example_env None (response_with [video_part ''video/webm'' ''https://host/v.webm'']))
          ''a cat'' ''key'') = (Some [0, 0, 0, 24], Some ''video/webm'')
   \<and> [0, 0, 0, 24] \<noteq> ([] :: nat list) \<and> startswith ''video/webm'' ''video/''"
  using generate_returns_video_or_failure
          [of "example_env None (response_with [video_part ''video/webm'' ''https://host/v.webm''])"
              "''a cat''" "''key''"]
  by (simp add: generate_veo_video_def generate_body_def example_env_def response_with_def
      video_part_def response_parts_def startswith_def download_video_def download_https_def
      mime_type_or_default_def Let_def)

text \<open>
  Claim C9. When \<open>generate_veo_video\<close> returns a buffer and a content type, the type
  is the declared MIME type of the first part of the first candidate whose file
  reference declares a type beginning with \<open>video/\<close>. That type is present and not
  empty, so the default \<open>video/mp4\<close> of line 133 is not what a successful run returns
  in place of a missing type.
\<close>

theorem success_returns_declared_type:
  assumes "fst (generate_veo_video env prompt key) = (Some b, Some m)"
  shows "\<exists>r ps fd. generate_content env prompt = Inr r \<and> response_parts r = Some ps
           \<and> find declares_video ps = Some (Part (Some fd))
           \<and> mime_type fd = Some m \<and> m \<noteq> [] \<and> startswith m ''video/''"
proof -
  from generate_veo_video_result [of env prompt key] assms
  obtain r ps fd where "generate_content env prompt = Inr r" and "response_parts r = Some ps"
    and fv: "find_video_part ps = Inr (Some fd)" and "mime_type fd = Some m"
    and "startswith m ''video/''"
    by auto
  moreover from find_video_part_found [OF fv]
  have "find declares_video ps = Some (Part (Some fd))" by blast
  ultimately show ?thesis
    by (auto dest: startswith_nonempty)
qed

theorem success_returns_declared_type_witness:
  "fst (generate_veo_video
          (example_env None
             (response_with [Part None, video_part ''image/png'' ''https://host/thumb.png'',
                             video_part ''video/webm'' ''https://host/v.webm'',
                             video_part ''video/mp4'' ''https://host/v.mp4'']))
          ''a cat'' ''key'') = (Some [0, 0, 0, 24], Some ''video/webm'')
   \<and> find declares_video
         [Part None, video_part ''image/png'' ''https://host/thumb.png'',
          video_part ''video/webm'' ''https://host/v.webm'',
          video_part ''video/mp4'' ''https://host/v.mp4'']
       = Some (video_part ''video/webm'' ''https://host/v.webm'')"
proof -
  have h: "fst (generate_veo_video
          (example_env None
             (response_with [Part None, video_part ''image/png'' ''https://host/thumb.png'',
                             video_part ''video/webm'' ''https://host/v.webm'',
                             video_part ''video/mp4'' ''https://host/v.mp4'']))
          ''a cat'' ''key'') = (Some [0, 0, 0, 24], Some ''video/webm'')"
    by (simp add: generate_veo_video_def generate_body_def example_env_def response_with_def
      video_part_def response_parts_def startswith_def download_video_def download_https_def
      mime_type_or_default_def Let_def)
  from success_returns_declared_type [OF h] h show ?thesis
    by (simp add: video_part_def startswith_def)
qed

text \<open>
  A URI with an unsupported scheme does not fail with an error of its own: the run
  returns \<open>(None, None)\<close>, the value that a failed HTTPS download returns too.
\<close>

theorem unsupported_scheme_error_counterexample:
  "fst (generate_veo_video
          (example_env None (response_with [video_part ''video/mp4'' ''ftp://host/v.mp4'']))
          ''a cat'' ''key'') = (None, None)
   \<and> fst (generate_veo_video
            ((example_env None (response_with [video_part ''video/mp4'' ''https://host/v.mp4'']))
               \<lparr>http_get := (\<lambda>_. Inl RequestException)\<rparr>)
            ''a cat'' ''key'') = (None, None)
   \<and> Print (ErrHttpsDownload ''https://host/v.mp4'' RequestException)
       \<in> set (snd (generate_veo_video
            ((example_env None (response_with [video_part ''video/mp4'' ''https://host/v.mp4'']))
               \<lparr>http_get := (\<lambda>_. Inl RequestException)\<rparr>)
            ''a cat'' ''key''))"
  by (simp add: generate_veo_video_def generate_body_def example_env_def response_with_def
      video_part_def response_parts_def startswith_def download_video_def download_https_def
      mime_type_or_default_def Let_def)

text \<open>
  Claim C6, as the code has it. When the video reference found in the response has a
  URI that begins neither with \<open>https://\<close> nor with \<open>gs://\<close>, the function returns the
  general failure value \<open>(None, None)\<close>, its last two messages are the ones about the
  unsupported scheme, and the run contains no retrieval call (no HTTP request, no
  storage client, no blob download).
\<close>

theorem unsupported_scheme_no_retrieval:
  assumes "model_init env = None" and "generate_content env prompt = Inr r"
    and "response_parts r = Some ps" and "find_video_part ps = Inr (Some fd)"
    and "file_uri fd = Some uri"
    and "\<not> startswith uri ''https://''" and "\<not> startswith uri ''gs://''"
  shows "fst (generate_veo_video env prompt key) = (None, None)
         \<and> filter is_retrieval (snd (generate_veo_video env prompt key)) = []
         \<and> (\<exists>evs. snd (generate_veo_video env prompt key)
                     = evs @ [Print (ErrUnsupportedScheme uri), Print HintSupportedSchemes])"
proof -
  have "download_video env (file_uri fd)
          = ([Print (ErrUnsupportedScheme uri), Print HintSupportedSchemes], Return (None, None))"
    using assms(5-7) by (simp add: download_video_def)
  from generate_reaches_download [OF assms(1-4) this, of key] show ?thesis
    by simp
qed

theorem unsupported_scheme_no_retrieval_witness:
  "\<not> startswith ''ftp://host/v.mp4'' ''https://'' \<and> \<not> startswith ''ftp://host/v.mp4'' ''gs://''
   \<and> generate_veo_video
        (example_env None (response_with [video_part ''video/mp4'' ''ftp://host/v.mp4'']))
        ''a cat'' ''key''
      = ((None, None),
         [Print (MsgGenerating ''a cat''), Print (MsgUsingModel ''models/veo-1.0''),
          Call (Configure ''key''), Call (GenerativeModel ''models/veo-1.0''),
          Print MsgSending, Call (GenerateContent ''a cat''),
          Print (MsgGenerationSuccessful (Some ''ftp://host/v.mp4'') ''video/mp4''),
          Print MsgAttemptingDownload,
          Print (ErrUnsupportedScheme ''ftp://host/v.mp4''), Print HintSupportedSchemes])"
proof -
  let ?fd = "\<lparr>mime_type = Some ''video/mp4'', file_uri = Some ''ftp://host/v.mp4''\<rparr>"
  let ?env = "example_env None (response_with [video_part ''video/mp4'' ''ftp://host/v.mp4''])"
  have a: "model_init ?env = None" by (simp add: example_env_def)
  have b: "generate_content ?env ''a cat''
             = Inr (response_with [video_part ''video/mp4'' ''ftp://host/v.mp4''])"
    by (simp add: example_env_def)
  have c: "response_parts (response_with [video_part ''video/mp4'' ''ftp://host/v.mp4''])
             = Some [Part (Some ?fd)]"
    by (simp add: response_parts_def response_with_def video_part_def)
  have d: "find_video_part [Part (Some ?fd)] = Inr (Some ?fd)"
    by (simp add: startswith_def)
  have e: "file_uri ?fd = Some ''ftp://host/v.mp4''" by simp
  have f: "\<not> startswith ''ftp://host/v.mp4'' ''https://''" by (simp add: startswith_def)
  have g: "\<not> startswith ''ftp://host/v.mp4'' ''gs://''" by (simp add: startswith_def)
  from unsupported_scheme_no_retrieval [OF a b c d e f g, of "''key''"] f g show ?thesis
    by (simp add: generate_veo_video_def generate_body_def example_env_def response_with_def
      video_part_def response_parts_def startswith_def download_video_def
      mime_type_or_default_def VEO_MODEL_NAME_def Let_def)
qed


lemma gcs_fetch_no_key:
  assumes "CHR ''/'' \<notin> set bucket"
  shows "gcs_fetch env (''gs://'' @ bucket)
           = ([Call StorageClient],
              Inl (case storage_client env of None \<Rightarrow> ValueError | Some e \<Rightarrow> e))"
  using split1_no_sep [OF assms] by (simp add: gcs_fetch_def split: option.splits)

lemma download_gcs_no_key:
  assumes "CHR ''/'' \<notin> set bucket"
  shows "download_gcs env (''gs://'' @ bucket)
           = (if storage_installed env
              then [Print (MsgDownloadingGcs (''gs://'' @ bucket)), Call StorageClient,
                    Print (ErrGcsDownload (''gs://'' @ bucket)
                             (case storage_client env of None \<Rightarrow> ValueError | Some e \<Rightarrow> e)),
                    Print HintGcsAuth]
              else [Print ErrStorageMissing, Print HintInstallStorage],
              Return (None, None))"
  using gcs_fetch_no_key [OF assms, of env] by (simp add: download_gcs_def)

text \<open>
  Claim C10. When the video reference has a URI \<open>gs://bucket\<close> with no \<open>/\<close> after the
  scheme, the function returns the failure value \<open>(None, None)\<close> and no blob download is
  called. With the storage library installed, the run ends in the handler of the
  \<open>gs://\<close> branch, which prints the download failure for the \<open>ValueError\<close> of the
  unpacking (or for the exception of \<open>storage.Client()\<close>, when that call raised first).
\<close>

theorem gs_uri_without_key_fails_cleanly:
  assumes "model_init env = None" and "generate_content env prompt = Inr r"
    and "response_parts r = Some ps" and "find_video_part ps = Inr (Some fd)"
    and "file_uri fd = Some (''gs://'' @ bucket)" and "CHR ''/'' \<notin> set bucket"
  shows "fst (generate_veo_video env prompt key) = (None, None)
         \<and> (\<forall>b k. Call (DownloadAsBytes b k) \<notin> set (snd (generate_veo_video env prompt key)))
         \<and> (\<exists>evs. snd (generate_veo_video env prompt key)
                = evs @ (if storage_installed env
                         then [Call StorageClient,
                               Print (ErrGcsDownload (''gs://'' @ bucket)
                                  (case storage_client env of None \<Rightarrow> ValueError | Some e \<Rightarrow> e)),
                               Print HintGcsAuth]
                         else [Print ErrStorageMissing, Print HintInstallStorage]))"
proof -
  have "download_video env (file_uri fd) = download_gcs env (''gs://'' @ bucket)"
    using assms(5) by (simp add: download_video_def startswith_def)
  then have dv: "download_video env (file_uri fd)
           = (if storage_installed env
              then [Print (MsgDownloadingGcs (''gs://'' @ bucket)), Call StorageClient,
                    Print (ErrGcsDownload (''gs://'' @ bucket)
                             (case storage_client env of None \<Rightarrow> ValueError | Some e \<Rightarrow> e)),
                    Print HintGcsAuth]
              else [Print ErrStorageMissing, Print HintInstallStorage],
              Return (None, None))"
    by (simp only: download_gcs_no_key [OF assms(6)])
  note run = generate_reaches_download [OF assms(1-4) dv, of key]
  show ?thesis
  proof (cases "storage_installed env")
    case True
    with run show ?thesis by simp
  next
    case False
    with run show ?thesis by simp
  qed
qed

theorem gs_uri_without_key_fails_cleanly_witness:
  "CHR ''/'' \<notin> set ''bucketonly''
   \<and> generate_veo_video
        (example_env None (response_with [video_part ''video/mp4'' ''gs://bucketonly'']))
        ''a cat'' ''key''
      = ((None, None),
         [Print (MsgGenerating ''a cat''), Print (MsgUsingModel ''models/veo-1.0''),
          Call (Configure ''key''), Call (GenerativeModel ''models/veo-1.0''),
          Print MsgSending, Call (GenerateContent ''a cat''),
          Print (MsgGenerationSuccessful (Some ''gs://bucketonly'') ''video/mp4''),
          Print MsgAttemptingDownload, Print (MsgDownloadingGcs ''gs://bucketonly''),
          Call StorageClient, Print (ErrGcsDownload ''gs://bucketonly'' ValueError),
          Print HintGcsAuth])"
proof -
  let ?fd = "\<lparr>mime_type = Some ''video/mp4'', file_uri = Some ''gs://bucketonly''\<rparr>"
  let ?env = "example_env None (response_with [video_part ''video/mp4'' ''gs://bucketonly''])"
  have a: "model_init ?env = None" by (simp add: example_env_def)
  have b: "generate_content ?env ''a cat''
             = Inr (response_with [video_part ''video/mp4'' ''gs://bucketonly''])"
    by (simp add: example_env_def)
  have c: "response_parts (response_with [video_part ''video/mp4'' ''gs://bucketonly''])
             = Some [Part (Some ?fd)]"
    by (simp add: response_parts_def response_with_def video_part_def)
  have d: "find_video_part [Part (Some ?fd)] = Inr (Some ?fd)"
    by (simp add: startswith_def)
  have e: "file_uri ?fd = Some (''gs://'' @ ''bucketonly'')" by simp
  have f: "CHR ''/'' \<notin> set ''bucketonly''" by simp
  from gs_uri_without_key_fails_cleanly [OF a b c d e f, of "''key''"] show ?thesis
    by (simp add: generate_veo_video_def generate_body_def example_env_def response_with_def
      video_part_def response_parts_def startswith_def download_video_def download_gcs_def
      gcs_fetch_def mime_type_or_default_def VEO_MODEL_NAME_def Let_def)
qed

section \<open>Properties of \<open>upload_to_drive\<close>\<close>

lemma calls_of_append: "calls_of (xs @ ys) = calls_of xs @ calls_of ys"
  by (simp add: calls_of_def map_filter_def)

lemma calls_of_Cons_Call: "calls_of (Call c # xs) = c # calls_of xs"
  by (simp add: calls_of_def)

lemma calls_of_Cons_Print: "calls_of (Print m # xs) = calls_of xs"
  by (simp add: calls_of_def)

lemma calls_of_Nil: "calls_of [] = []"
  by (simp add: calls_of_def)

lemma calls_of_report_progress: "calls_of (snd (report_progress st p)) = []"
  by (simp add: report_progress_def calls_of_def Let_def split: option.splits)

lemma reported_append: "reported (xs @ ys) = reported xs @ reported ys"
  by (simp add: reported_def map_filter_def)

lemma reported_Cons_Call: "reported (Call c # xs) = reported xs"
  by (simp add: reported_def)

lemma reported_Nil: "reported [] = []"
  by (simp add: reported_def)

lemma upload_loop_pending_fst:
  "fst (upload_loop (ChunkReturns st None # rest) p)
     = Call NextChunk # snd (report_progress st p) @ fst (upload_loop rest (fst (report_progress st p)))"
  by (simp split: prod.splits)

lemma upload_loop_pending_snd:
  "snd (upload_loop (ChunkReturns st None # rest) p)
     = snd (upload_loop rest (fst (report_progress st p)))"
  by (simp split: prod.splits)

lemma pending_cases: "pending c \<Longrightarrow> \<exists>st. c = ChunkReturns st None"
  by (cases c rule: pending.cases) auto

lemma upload_loop_raises:
  "list_all pending pre \<Longrightarrow>
     snd (upload_loop (pre @ ChunkRaises e # post) p) = Some (ChunkFailed e)
     \<and> calls_of (fst (upload_loop (pre @ ChunkRaises e # post) p))
         = replicate (Suc (length pre)) NextChunk
     \<and> (\<exists>evs. fst (upload_loop (pre @ ChunkRaises e # post) p) = evs @ [Print (ErrChunkUpload e)])"
proof (induction pre arbitrary: p)
  case Nil
  show ?case by (simp add: calls_of_Cons_Call calls_of_Cons_Print calls_of_Nil)
next
  case (Cons c pre)
  then obtain st where c: "c = ChunkReturns st None" by (auto dest: pending_cases)
  from Cons have pre: "list_all pending pre" by simp
  note ih = Cons.IH [OF pre, of "fst (report_progress st p)"]
  from ih obtain evs where
    evs: "fst (upload_loop (pre @ ChunkRaises e # post) (fst (report_progress st p)))
            = evs @ [Print (ErrChunkUpload e)]" by blast
  have "fst (upload_loop ((c # pre) @ ChunkRaises e # post) p)
          = (Call NextChunk # snd (report_progress st p) @ evs) @ [Print (ErrChunkUpload e)]"
    using evs by (simp add: c upload_loop_pending_fst del: upload_loop.simps)
  then have last: "\<exists>evs'. fst (upload_loop ((c # pre) @ ChunkRaises e # post) p)
          = evs' @ [Print (ErrChunkUpload e)]" by blast
  have res: "snd (upload_loop ((c # pre) @ ChunkRaises e # post) p) = Some (ChunkFailed e)"
    using ih by (simp add: c upload_loop_pending_snd del: upload_loop.simps)
  have calls: "calls_of (fst (upload_loop ((c # pre) @ ChunkRaises e # post) p))
         = replicate (Suc (length (c # pre))) NextChunk"
    using ih by (simp add: c upload_loop_pending_fst calls_of_Cons_Call calls_of_append
        calls_of_report_progress del: upload_loop.simps)
  from res calls last show ?case by blast
qed

lemma upload_loop_completes:
  "list_all pending pre \<Longrightarrow>
     snd (upload_loop (pre @ ChunkReturns st (Some r) # post) p) = Some (Completed r)
     \<and> calls_of (fst (upload_loop (pre @ ChunkReturns st (Some r) # post) p))
         = replicate (Suc (length pre)) NextChunk"
proof (induction pre arbitrary: p)
  case Nil
  show ?case by (simp add: calls_of_Cons_Call calls_of_report_progress)
next
  case (Cons c pre)
  then obtain st' where c: "c = ChunkReturns st' None" by (auto dest: pending_cases)
  from Cons have pre: "list_all pending pre" by simp
  note ih = Cons.IH [OF pre, of "fst (report_progress st' p)"]
  show ?case
    using ih by (simp add: c upload_loop_pending_fst upload_loop_pending_snd calls_of_Cons_Call
        calls_of_append calls_of_report_progress del: upload_loop.simps)
qed

text \<open>
  Claim C5. When a call of \<open>next_chunk\<close> raises after any number of calls that returned
  no response, \<open>upload_to_drive\<close> returns \<open>None\<close>, its last message is the one about
  the chunk error, and the calls it made to the service are exactly the creation of the
  request and the calls of \<open>next_chunk\<close> up to the one that raised: no later chunk is
  transferred whatever the service would have answered, nothing is retried, and no
  call removes the partly created object.
\<close>

theorem chunk_error_aborts_upload:
  assumes "files_create svc = None"
    and "next_chunk svc = pre @ ChunkRaises e # post" and "list_all pending pre"
  shows "snd (upload_to_drive (Some svc) filename video_bytes mimetype folder_id) = Some None
         \<and> calls_of (fst (upload_to_drive (Some svc) filename video_bytes mimetype folder_id))
             = FilesCreate filename (parents_of folder_id) # replicate (Suc (length pre)) NextChunk
         \<and> (\<exists>evs. fst (upload_to_drive (Some svc) filename video_bytes mimetype folder_id)
                     = evs @ [Print (ErrChunkUpload e)])"
proof -
  obtain levs where l: "upload_loop (next_chunk svc) 0 = (levs, Some (ChunkFailed e))"
    and c: "calls_of levs = replicate (Suc (length pre)) NextChunk"
    and m: "\<exists>evs. levs = evs @ [Print (ErrChunkUpload e)]"
    using upload_loop_raises [OF assms(3), of e post 0] assms(2)
    by (cases "upload_loop (next_chunk svc) 0") auto
  from m obtain evs where evs: "levs = evs @ [Print (ErrChunkUpload e)]" by blast
  have u: "upload_to_drive (Some svc) filename video_bytes mimetype folder_id
             = ([Print (MsgUploading filename), Call (FilesCreate filename (parents_of folder_id)),
                 Print MsgStartingUpload] @ levs, Some None)"
    using assms(1) l by (simp add: upload_to_drive_def)
  have "fst (upload_to_drive (Some svc) filename video_bytes mimetype folder_id)
          = ([Print (MsgUploading filename), Call (FilesCreate filename (parents_of folder_id)),
              Print MsgStartingUpload] @ evs) @ [Print (ErrChunkUpload e)]"
    using u evs by simp
  then have "\<exists>evs. fst (upload_to_drive (Some svc) filename video_bytes mimetype folder_id)
                     = evs @ [Print (ErrChunkUpload e)]" by blast
  moreover have "calls_of (fst (upload_to_drive (Some svc) filename video_bytes mimetype folder_id))
             = FilesCreate filename (parents_of folder_id) # replicate (Suc (length pre)) NextChunk"
    using u c by (simp add: calls_of_Cons_Call calls_of_Cons_Print)
  ultimately show ?thesis using u by simp
qed

theorem chunk_error_aborts_upload_witness:
  "files_create second_chunk_fails = None
   \<and> list_all pending [ChunkReturns (Some \<lparr>progress_percent = 20\<rparr>) None]
   \<and> upload_to_drive (Some second_chunk_fails) ''clip.mp4'' [0, 0, 0, 24] ''video/mp4'' None
      = ([Print (MsgUploading ''clip.mp4''), Call (FilesCreate ''clip.mp4'' None),
          Print MsgStartingUpload, Call NextChunk, Print (MsgUploaded 20), Call NextChunk,
          Print (ErrChunkUpload (ServiceError ''connection reset''))], Some None)
   \<and> calls_of (fst (upload_to_drive (Some second_chunk_fails) ''clip.mp4'' [0, 0, 0, 24]
                       ''video/mp4'' None))
      = [FilesCreate ''clip.mp4'' None, NextChunk, NextChunk]"
proof -
  have a: "files_create second_chunk_fails = None" by (simp add: second_chunk_fails_def)
  have b: "next_chunk second_chunk_fails
             = [ChunkReturns (Some \<lparr>progress_percent = 20\<rparr>) None]
               @ ChunkRaises (ServiceError ''connection reset'')
               # [ChunkReturns (Some \<lparr>progress_percent = 60\<rparr>) None,
                  ChunkReturns (Some \<lparr>progress_percent = 80\<rparr>) None,
                  ChunkReturns None (Some full_response)]"
    by (simp add: second_chunk_fails_def)
  have c: "list_all pending [ChunkReturns (Some \<lparr>progress_percent = 20\<rparr>) None]" by simp
  have d: "upload_to_drive (Some second_chunk_fails) ''clip.mp4'' [0, 0, 0, 24] ''video/mp4'' None
      = ([Print (MsgUploading ''clip.mp4''), Call (FilesCreate ''clip.mp4'' None),
          Print MsgStartingUpload, Call NextChunk, Print (MsgUploaded 20), Call NextChunk,
          Print (ErrChunkUpload (ServiceError ''connection reset''))], Some None)"
    by (simp add: second_chunk_fails_def upload_to_drive_def report_progress_def parents_of_def)
  from chunk_error_aborts_upload [OF a b c, of "''clip.mp4''" "[0, 0, 0, 24]" "''video/mp4''" None]
    a c d
  show ?thesis by (simp add: parents_of_def)
qed


text \<open>
  A response that has a view link and no identifier: the upload prints its success
  messages, with \<open>None\<close> as the file id, and returns the link.
\<close>

theorem missing_identifier_counterexample:
  "link_only_response ''id'' = None
   \<and> upload_to_drive (Some (five_chunks link_only_response)) ''clip.mp4'' [0, 0, 0, 24]
        ''video/mp4'' None
      = ([Print (MsgUploading ''clip.mp4''), Call (FilesCreate ''clip.mp4'' None),
          Print MsgStartingUpload,
          Call NextChunk, Print (MsgUploaded 20), Call NextChunk, Print (MsgUploaded 40),
          Call NextChunk, Print (MsgUploaded 60), Call NextChunk, Print (MsgUploaded 80),
          Call NextChunk,
          Print (MsgUploadSuccess ''clip.mp4''), Print (MsgFileId None),
          Print (MsgViewLink (Some ''https://drive.example/1a2b/view''))],
         Some (Some ''https://drive.example/1a2b/view''))"
  by (simp add: link_only_response_def five_chunks_def upload_to_drive_def report_progress_def
      parents_of_def Let_def)

text \<open>
  Claim C4, as the code has it. When a call of \<open>next_chunk\<close> returns the response,
  \<open>upload_to_drive\<close> reads \<open>id\<close> and \<open>webViewLink\<close> from it with \<open>get\<close>, prints the
  success messages with both values, and returns the view link. So it returns no link
  exactly when the response has no view link, and a missing identifier alone changes
  only the printed file id.
\<close>

theorem completed_upload_returns_view_link:
  assumes "files_create svc = None"
    and "next_chunk svc = pre @ ChunkReturns st (Some r) # post" and "list_all pending pre"
  shows "snd (upload_to_drive (Some svc) filename video_bytes mimetype folder_id)
           = Some (r ''webViewLink'')
         \<and> (\<exists>evs. fst (upload_to_drive (Some svc) filename video_bytes mimetype folder_id)
                = evs @ [Print (MsgUploadSuccess filename), Print (MsgFileId (r ''id'')),
                         Print (MsgViewLink (r ''webViewLink''))])"
proof -
  obtain levs where l: "upload_loop (next_chunk svc) 0 = (levs, Some (Completed r))"
    using upload_loop_completes [OF assms(3), of st r post 0] assms(2)
    by (cases "upload_loop (next_chunk svc) 0") auto
  have u: "upload_to_drive (Some svc) filename video_bytes mimetype folder_id
             = (([Print (MsgUploading filename), Call (FilesCreate filename (parents_of folder_id)),
                 Print MsgStartingUpload] @ levs)
                @ [Print (MsgUploadSuccess filename), Print (MsgFileId (r ''id'')),
                   Print (MsgViewLink (r ''webViewLink''))], Some (r ''webViewLink''))"
    using assms(1) l by (simp add: upload_to_drive_def Let_def)
  then have "\<exists>evs. fst (upload_to_drive (Some svc) filename video_bytes mimetype folder_id)
                = evs @ [Print (MsgUploadSuccess filename), Print (MsgFileId (r ''id'')),
                         Print (MsgViewLink (r ''webViewLink''))]"
    by (metis fst_conv)
  with u show ?thesis by simp
qed

theorem completed_upload_returns_view_link_witness:
  "files_create (five_chunks Map.empty) = None
   \<and> list_all pending (butlast (next_chunk (five_chunks Map.empty)))
   \<and> snd (upload_to_drive (Some (five_chunks Map.empty)) ''clip.mp4'' [0, 0, 0, 24]
             ''video/mp4'' None) = Some None
   \<and> snd (upload_to_drive (Some (five_chunks full_response)) ''clip.mp4'' [0, 0, 0, 24]
             ''video/mp4'' None) = Some (Some ''https://drive.example/1a2b/view'')"
proof -
  have a: "files_create (five_chunks r) = None" for r by (simp add: five_chunks_def)
  have b: "next_chunk (five_chunks r)
             = [ChunkReturns (Some \<lparr>progress_percent = 20\<rparr>) None,
                ChunkReturns (Some \<lparr>progress_percent = 40\<rparr>) None,
                ChunkReturns (Some \<lparr>progress_percent = 60\<rparr>) None,
                ChunkReturns (Some \<lparr>progress_percent = 80\<rparr>) None]
               @ ChunkReturns None (Some r) # []" for r
    by (simp add: five_chunks_def)
  have c: "list_all pending [ChunkReturns (Some \<lparr>progress_percent = 20\<rparr>) None,
                ChunkReturns (Some \<lparr>progress_percent = 40\<rparr>) None,
                ChunkReturns (Some \<lparr>progress_percent = 60\<rparr>) None,
                ChunkReturns (Some \<lparr>progress_percent = 80\<rparr>) None]" by simp
  have d: "list_all pending (butlast (next_chunk (five_chunks Map.empty)))"
    by (simp add: five_chunks_def)
  from completed_upload_returns_view_link
         [OF a b c, of Map.empty "''clip.mp4''" "[0, 0, 0, 24]" "''video/mp4''" None]
       completed_upload_returns_view_link
         [OF a b c, of full_response "''clip.mp4''" "[0, 0, 0, 24]" "''video/mp4''" None]
       a d
  show ?thesis by (simp add: full_response_def)
qed

lemma reported_report_progress:
  "reported (snd (report_progress st p))
     = increases p (case st of None \<Rightarrow> [] | Some s \<Rightarrow> [progress_percent s])"
  by (simp add: report_progress_def reported_def Let_def split: option.splits)

lemma increases_append:
  "increases p (xs @ ys) = increases p xs @ increases (fold max xs p) ys"
  by (induction xs arbitrary: p) (auto simp: max_def)

lemma fst_report_progress:
  "fst (report_progress st p)
     = fold max (case st of None \<Rightarrow> [] | Some s \<Rightarrow> [progress_percent s]) p"
  by (simp add: report_progress_def Let_def max_def split: option.splits)

lemma reported_upload_loop: "reported (fst (upload_loop cs p)) = increases p (sampled cs)"
proof (induction cs p rule: upload_loop.induct)
  case (1 progress)
  show ?case by (simp add: reported_Nil)
next
  case (2 e rest progress)
  show ?case by (simp add: reported_def)
next
  case (3 st response rest progress)
  show ?case by (simp add: reported_Cons_Call reported_report_progress)
next
  case (4 st rest progress)
  then show ?case
    by (simp add: upload_loop_pending_fst reported_Cons_Call reported_append
        reported_report_progress increases_append fst_report_progress del: upload_loop.simps)
qed

lemma increases_above: "v \<in> set (increases p vs) \<Longrightarrow> p < v"
proof (induction vs arbitrary: p)
  case Nil
  then show ?case by simp
next
  case (Cons a vs)
  show ?case
  proof (cases "p < a")
    case True
    with Cons.prems have "v = a \<or> v \<in> set (increases a vs)" by simp
    then show ?thesis
    proof
      assume "v = a"
      with True show ?thesis by simp
    next
      assume "v \<in> set (increases a vs)"
      then have "a < v" by (rule Cons.IH)
      with True show ?thesis by simp
    qed
  next
    case False
    with Cons.prems have "v \<in> set (increases p vs)" by simp
    then show ?thesis by (rule Cons.IH)
  qed
qed

lemma increases_strict: "sorted_wrt (<) (increases p vs)"
  by (induction vs arbitrary: p) (auto dest: increases_above)

lemma increases_mem:
  "v \<in> set (increases p vs)
     \<longleftrightarrow> p < v \<and> (\<exists>ys zs. vs = ys @ v # zs \<and> (\<forall>y \<in> set ys. y < v))"
proof (induction vs arbitrary: p)
  case Nil
  show ?case by simp
next
  case (Cons x xs)
  show ?case
  proof (cases "p < x")
    case True
    have "v \<in> set (increases p (x # xs)) \<longleftrightarrow> v = x \<or> v \<in> set (increases x xs)"
      using True by auto
    also have "\<dots> \<longleftrightarrow> v = x \<or> (x < v \<and> (\<exists>ys zs. xs = ys @ v # zs \<and> (\<forall>y \<in> set ys. y < v)))"
      by (simp add: Cons.IH)
    also have "\<dots> \<longleftrightarrow> p < v \<and> (\<exists>ys zs. x # xs = ys @ v # zs \<and> (\<forall>y \<in> set ys. y < v))"
    proof
      assume "v = x \<or> (x < v \<and> (\<exists>ys zs. xs = ys @ v # zs \<and> (\<forall>y \<in> set ys. y < v)))"
      then show "p < v \<and> (\<exists>ys zs. x # xs = ys @ v # zs \<and> (\<forall>y \<in> set ys. y < v))"
      proof
        assume "v = x"
        then have "x # xs = [] @ v # xs \<and> (\<forall>y \<in> set []. y < v)" by simp
        with True \<open>v = x\<close> show ?thesis by blast
      next
        assume "x < v \<and> (\<exists>ys zs. xs = ys @ v # zs \<and> (\<forall>y \<in> set ys. y < v))"
        then obtain ys zs where "x < v" "xs = ys @ v # zs" "\<forall>y \<in> set ys. y < v" by blast
        then have "x # xs = (x # ys) @ v # zs \<and> (\<forall>y \<in> set (x # ys). y < v)" by simp
        with True \<open>x < v\<close> show ?thesis by (metis less_trans)
      qed
    next
      assume r: "p < v \<and> (\<exists>ys zs. x # xs = ys @ v # zs \<and> (\<forall>y \<in> set ys. y < v))"
      then obtain ys zs where e: "x # xs = ys @ v # zs" and b: "\<forall>y \<in> set ys. y < v" by blast
      show "v = x \<or> (x < v \<and> (\<exists>ys zs. xs = ys @ v # zs \<and> (\<forall>y \<in> set ys. y < v)))"
      proof (cases ys)
        case Nil
        with e show ?thesis by simp
      next
        case (Cons y ys')
        with e b have "x < v" "xs = ys' @ v # zs" "\<forall>y \<in> set ys'. y < v" by auto
        then show ?thesis by blast
      qed
    qed
    finally show ?thesis .
  next
    case False
    have "v \<in> set (increases p (x # xs)) \<longleftrightarrow> v \<in> set (increases p xs)"
      using False by simp
    also have "\<dots> \<longleftrightarrow> p < v \<and> (\<exists>ys zs. xs = ys @ v # zs \<and> (\<forall>y \<in> set ys. y < v))"
      by (simp add: Cons.IH)
    also have "\<dots> \<longleftrightarrow> p < v \<and> (\<exists>ys zs. x # xs = ys @ v # zs \<and> (\<forall>y \<in> set ys. y < v))"
    proof
      assume "p < v \<and> (\<exists>ys zs. xs = ys @ v # zs \<and> (\<forall>y \<in> set ys. y < v))"
      then obtain ys zs where "p < v" "xs = ys @ v # zs" "\<forall>y \<in> set ys. y < v" by blast
      with False have "x # xs = (x # ys) @ v # zs \<and> (\<forall>y \<in> set (x # ys). y < v)" by auto
      with \<open>p < v\<close> show "p < v \<and> (\<exists>ys zs. x # xs = ys @ v # zs \<and> (\<forall>y \<in> set ys. y < v))"
        by blast
    next
      assume r: "p < v \<and> (\<exists>ys zs. x # xs = ys @ v # zs \<and> (\<forall>y \<in> set ys. y < v))"
      then obtain ys zs where pv: "p < v" and e: "x # xs = ys @ v # zs"
        and b: "\<forall>y \<in> set ys. y < v" by blast
      show "p < v \<and> (\<exists>ys zs. xs = ys @ v # zs \<and> (\<forall>y \<in> set ys. y < v))"
      proof (cases ys)
        case Nil
        with e have "v = x" by simp
        with False pv show ?thesis by simp
      next
        case (Cons y ys')
        with e b have "xs = ys' @ v # zs" "\<forall>y \<in> set ys'. y < v" by auto
        with pv show ?thesis by blast
      qed
    qed
    finally show ?thesis .
  qed
qed

lemma increases_sorted_samples:
  assumes "sorted vs"
  shows "set (increases p vs) = {v \<in> set vs. p < v}"
proof (rule set_eqI)
  fix v
  show "v \<in> set (increases p vs) \<longleftrightarrow> v \<in> {v \<in> set vs. p < v}"
  proof
    assume "v \<in> set (increases p vs)"
    then show "v \<in> {v \<in> set vs. p < v}" by (auto simp: increases_mem)
  next
    assume "v \<in> {v \<in> set vs. p < v}"
    then have m: "v \<in> set vs" and pv: "p < v" by auto
    from split_list_first [OF m] obtain ys zs where e: "vs = ys @ v # zs" and n: "v \<notin> set ys"
      by blast
    from assms e have "\<forall>y \<in> set ys. y \<le> v" by (simp add: sorted_append)
    with n have "\<forall>y \<in> set ys. y < v" by (metis order_le_less)
    with pv e show "v \<in> set (increases p vs)" unfolding increases_mem by blast
  qed
qed

lemma reported_upload_to_drive:
  assumes "files_create svc = None"
  shows "reported (fst (upload_to_drive (Some svc) filename video_bytes mimetype folder_id))
           = increases 0 (sampled (next_chunk svc))"
proof -
  obtain levs out where l: "upload_loop (next_chunk svc) 0 = (levs, out)"
    by (cases "upload_loop (next_chunk svc) 0")
  then have r: "reported levs = increases 0 (sampled (next_chunk svc))"
    using reported_upload_loop [of "next_chunk svc" 0] by simp
  have "reported (fst (upload_to_drive (Some svc) filename video_bytes mimetype folder_id))
          = reported levs"
    using assms l
    by (auto simp: upload_to_drive_def reported_def map_filter_def Let_def
        split: option.splits upload_end.splits)
  with r show ?thesis by simp
qed

text \<open>
  The percentages printed do not cover every whole-percent value that the transfer
  passes through. An upload in five chunks completes after printing 20, 40, 60 and 80
  only: 30 is never printed, and neither is 100, since the last call returns the
  response without a progress object. An upload in one chunk completes and prints no
  percentage at all.
\<close>

theorem progress_coverage_counterexample:
  "snd (upload_to_drive (Some (five_chunks full_response)) ''clip.mp4'' [0, 0, 0, 24]
          ''video/mp4'' None) = Some (Some ''https://drive.example/1a2b/view'')
   \<and> reported (fst (upload_to_drive (Some (five_chunks full_response)) ''clip.mp4''
                       [0, 0, 0, 24] ''video/mp4'' None)) = [20, 40, 60, 80]
   \<and> 30 \<notin> set (reported (fst (upload_to_drive (Some (five_chunks full_response)) ''clip.mp4''
                       [0, 0, 0, 24] ''video/mp4'' None)))
   \<and> 100 \<notin> set (reported (fst (upload_to_drive (Some (five_chunks full_response)) ''clip.mp4''
                       [0, 0, 0, 24] ''video/mp4'' None)))
   \<and> snd (upload_to_drive (Some (one_chunk full_response)) ''clip.mp4'' [0, 0, 0, 24]
          ''video/mp4'' None) = Some (Some ''https://drive.example/1a2b/view'')
   \<and> reported (fst (upload_to_drive (Some (one_chunk full_response)) ''clip.mp4''
                       [0, 0, 0, 24] ''video/mp4'' None)) = []"
  by (simp add: five_chunks_def one_chunk_def full_response_def upload_to_drive_def
      report_progress_def reported_def parents_of_def Let_def)

text \<open>
  Claim C8, as the code has it. The progress is sampled once for each chunk that
  returns a progress object, as the integer that the loop computes from it. The
  percentages printed during an upload are strictly increasing, so none is printed
  twice, and a value is printed exactly when it is a sampled value above zero that
  exceeds every value sampled before it; a value that is never sampled is never
  printed. When the samples never decrease, the values printed are all the sampled
  values above zero.
\<close>

theorem each_percent_increase_reported_once:
  assumes "files_create svc = None"
  shows "sorted_wrt (<) (reported (fst (upload_to_drive (Some svc) filename video_bytes mimetype folder_id)))
         \<and> (\<forall>v. v \<in> set (reported (fst (upload_to_drive (Some svc) filename video_bytes mimetype folder_id)))
                \<longleftrightarrow> 0 < v \<and> (\<exists>ys zs. sampled (next_chunk svc) = ys @ v # zs
                                    \<and> (\<forall>y \<in> set ys. y < v)))
         \<and> (sorted (sampled (next_chunk svc))
              \<longrightarrow> set (reported (fst (upload_to_drive (Some svc) filename video_bytes mimetype folder_id)))
                    = {v \<in> set (sampled (next_chunk svc)). 0 < v})"
  unfolding reported_upload_to_drive [OF assms]
  using increases_strict [of 0 "sampled (next_chunk svc)"]
        increases_mem [of _ 0 "sampled (next_chunk svc)"]
        increases_sorted_samples [of "sampled (next_chunk svc)" 0]
  by blast

theorem each_percent_increase_reported_once_witness:
  "files_create (five_chunks full_response) = None
   \<and> sampled (next_chunk (five_chunks full_response)) = [20, 40, 60, 80]
   \<and> reported (fst (upload_to_drive (Some (five_chunks full_response)) ''clip.mp4''
                       [0, 0, 0, 24] ''video/mp4'' None)) = [20, 40, 60, 80]
   \<and> set (reported (fst (upload_to_drive (Some (five_chunks full_response)) ''clip.mp4''
                       [0, 0, 0, 24] ''video/mp4'' None)))
       = {v \<in> set (sampled (next_chunk (five_chunks full_response))). 0 < v}"
proof -
  have a: "files_create (five_chunks full_response) = None" by (simp add: five_chunks_def)
  have b: "sampled (next_chunk (five_chunks full_response)) = [20, 40, 60, 80]"
    by (simp add: five_chunks_def)
  have c: "reported (fst (upload_to_drive (Some (five_chunks full_response)) ''clip.mp4''
                       [0, 0, 0, 24] ''video/mp4'' None)) = [20, 40, 60, 80]"
    by (simp add: five_chunks_def upload_to_drive_def report_progress_def reported_def
        Let_def)
  have d: "sorted (sampled (next_chunk (five_chunks full_response)))"
    by (simp add: b)
  from each_percent_increase_reported_once
         [OF a, of "''clip.mp4''" "[0, 0, 0, 24]" "''video/mp4''" None] d
  have "set (reported (fst (upload_to_drive (Some (five_chunks full_response)) ''clip.mp4''
                       [0, 0, 0, 24] ''video/mp4'' None)))
       = {v \<in> set (sampled (next_chunk (five_chunks full_response))). 0 < v}"
    by blast
  with a b c show ?thesis by blast
qed

end
